theory Spec2Isabelle
  imports Complex_Main
begin

section \<open>The HTTP library as utils.py uses it\<close>

text \<open>
  \<^verbatim>\<open>utils.py\<close> calls \<^verbatim>\<open>requests.get\<close>, reads \<^verbatim>\<open>response.status_code\<close>, calls
  \<^verbatim>\<open>response.raise_for_status()\<close> and \<^verbatim>\<open>response.close()\<close>, and catches classes of
  \<^verbatim>\<open>requests.exceptions\<close>. A response object is a record with the one attribute the code
  reads and the text the library puts into the \<^verbatim>\<open>HTTPError\<close> it raises for it.
\<close>

record response =
  status_code :: int
  http_error_text :: string

text \<open>
  The classes of \<^verbatim>\<open>requests.exceptions\<close> named in the except clauses of
  \<^verbatim>\<open>make_get_request\<close>, with the two timeout classes its comment names. An exception
  value carries its class and the text \<^verbatim>\<open>str(e)\<close>.
\<close>

datatype exc_class =
    RequestException
  | HTTPError
  | ConnectionError
  | SSLError
  | Timeout
  | ConnectTimeout
  | ReadTimeout
  | TooManyRedirects

datatype exn = Exn (cls: exc_class) (detail: string)

text \<open>
  \<^verbatim>\<open>isinstance\<close> along the class hierarchy of the library: every class derives from
  \<^verbatim>\<open>RequestException\<close>, \<^verbatim>\<open>SSLError\<close> and \<^verbatim>\<open>ConnectTimeout\<close> derive from
  \<^verbatim>\<open>ConnectionError\<close>, and \<^verbatim>\<open>ConnectTimeout\<close> and \<^verbatim>\<open>ReadTimeout\<close> derive from
  \<^verbatim>\<open>Timeout\<close>.
\<close>

fun derives_from :: "exc_class \<Rightarrow> exc_class \<Rightarrow> bool" where
  "derives_from c RequestException = True"
| "derives_from c ConnectionError = (c = ConnectionError \<or> c = SSLError \<or> c = ConnectTimeout)"
| "derives_from c Timeout = (c = Timeout \<or> c = ConnectTimeout \<or> c = ReadTimeout)"
| "derives_from c d = (c = d)"

definition isinstance :: "exn \<Rightarrow> exc_class \<Rightarrow> bool" where
  "isinstance e c = derives_from (cls e) c"

text \<open>
  One call of \<^verbatim>\<open>requests.get\<close> either returns a response object or raises an exception
  of the library.
\<close>

datatype get_result = Returned response | Raised exn

text \<open>
  \<^verbatim>\<open>raise_for_status\<close> raises \<^verbatim>\<open>HTTPError\<close> for a 4XX client error or a 5XX server error
  (the comment at the second except clause) and returns otherwise.
\<close>

definition raise_for_status :: "response \<Rightarrow> exn option" where
  "raise_for_status r =
     (if 400 \<le> status_code r \<and> status_code r < 600
      then Some (Exn HTTPError (http_error_text r)) else None)"

section \<open>Effects\<close>

text \<open>
  Everything the code does to the outside is one event of a chronological trace: a physical
  request (numbered from 0), the closing of a response, a sleep, and a line handed to
  \<^verbatim>\<open>safe_print\<close> or to \<^verbatim>\<open>print\<close>. The network is a function from the number of the
  physical request to its outcome.
\<close>

datatype event =
    Get nat
  | Close response
  | Sleep real
  | Safe_print string
  | Print string

type_synonym world = "event list"

type_synonym network = "nat \<Rightarrow> get_result"

fun is_Get :: "event \<Rightarrow> bool" where
  "is_Get (Get n) = True"
| "is_Get e = False"

definition attempts :: "world \<Rightarrow> nat" where
  "attempts w = length (filter is_Get w)"

fun sleeps :: "world \<Rightarrow> real list" where
  "sleeps [] = []"
| "sleeps (Sleep d # w) = d # sleeps w"
| "sleeps (e # w) = sleeps w"

fun closed_responses :: "world \<Rightarrow> response list" where
  "closed_responses [] = []"
| "closed_responses (Close r # w) = r # closed_responses w"
| "closed_responses (e # w) = closed_responses w"

text \<open>The requests and sleeps of a trace, in order, everything else dropped.\<close>

fun timeline :: "world \<Rightarrow> event list" where
  "timeline [] = []"
| "timeline (Get n # w) = Get n # timeline w"
| "timeline (Sleep d # w) = Sleep d # timeline w"
| "timeline (e # w) = timeline w"

definition requests_get :: "network \<Rightarrow> world \<Rightarrow> get_result \<times> world" where
  "requests_get net w = (net (attempts w), w @ [Get (attempts w)])"

text \<open>In one thread \<^verbatim>\<open>safe_print\<close> creates a lock, takes it, prints and releases it.\<close>

definition safe_print :: "string \<Rightarrow> world \<Rightarrow> world" where
  "safe_print m w = w @ [Safe_print m]"

definition print :: "string \<Rightarrow> world \<Rightarrow> world" where
  "print m w = w @ [Print m]"

definition nl :: string where
  "nl = [CHR 0x0A]"

section \<open>Request.make\_get\_request\<close>

text \<open>
  A Python local is unbound until it is assigned; reading it unbound raises
  \<^verbatim>\<open>UnboundLocalError\<close>. Reading an attribute of \<^verbatim>\<open>None\<close> raises \<^verbatim>\<open>AttributeError\<close>.
  An exception no clause catches propagates.
\<close>

datatype 'a local = Unbound | Bound 'a

datatype error = UnboundLocalError | AttributeError | Propagated exn

text \<open>The try block: \<^verbatim>\<open>response = requests.get(...)\<close>, then \<^verbatim>\<open>response.raise_for_status()\<close>.\<close>

definition try_block :: "network \<Rightarrow> world \<Rightarrow> exn option \<times> response option local \<times> world" where
  "try_block net w =
     (case requests_get net w of
        (Raised e, w') \<Rightarrow> (Some e, Unbound, w')
      | (Returned r, w') \<Rightarrow> (raise_for_status r, Bound (Some r), w'))"

text \<open>
  The except clauses, tried in the order of the source. The result is the exception that
  leaves the clause (if any), the local \<^verbatim>\<open>response\<close> and the trace.
\<close>

definition except_clauses ::
  "exn \<Rightarrow> response option local \<Rightarrow> world \<Rightarrow> error option \<times> response option local \<times> world" where
  "except_clauses e resp w =
     (if isinstance e Timeout then
        (None, Bound None,
         safe_print (''Timeout: The request timed out while waiting for the server to respond''
                     @ nl @ detail e) w)
      else if isinstance e ConnectionError \<or> isinstance e HTTPError then
        (case resp of
           Unbound \<Rightarrow> (Some UnboundLocalError, resp, w)
         | Bound None \<Rightarrow> (Some AttributeError, resp, w)
         | Bound (Some r) \<Rightarrow>
             (None, resp,
              print (detail e)
                (if status_code r = 403
                 then safe_print ''Forbidden: The request was not allowed'' w
                 else safe_print ''Error: The requested resource could not be reached'' w)))
      else if isinstance e TooManyRedirects then
        (None, resp,
         safe_print (''Error: The request exceeded the number of maximum redirections''
                     @ nl @ detail e) w)
      else if isinstance e SSLError then
        (None, resp,
         safe_print (''Error: The SSL certificate could not be verified'' @ nl @ detail e) w)
      else if isinstance e RequestException then
        (None, resp,
         safe_print (''Encountered an ambiguous error, you're on your own now''
                     @ nl @ detail e) w)
      else (Some (Propagated e), resp, w))"

text \<open>
  The finally block: \<^verbatim>\<open>if response is not None and not self.stream: response.close()\<close>.
  It reads \<^verbatim>\<open>response\<close> first.
\<close>

definition finally_block :: "bool \<Rightarrow> response option local \<Rightarrow> world \<Rightarrow> error option \<times> world" where
  "finally_block strm resp w =
     (case resp of
        Unbound \<Rightarrow> (Some UnboundLocalError, w)
      | Bound None \<Rightarrow> (None, w)
      | Bound (Some r) \<Rightarrow> (if \<not> strm then (None, w @ [Close r]) else (None, w)))"

text \<open>\<^verbatim>\<open>return response\<close>.\<close>

definition return_local :: "response option local \<Rightarrow> error + response option" where
  "return_local resp = (case resp of Unbound \<Rightarrow> Inl UnboundLocalError | Bound v \<Rightarrow> Inr v)"

text \<open>
  The whole statement: the finally block runs on every path; an exception raised in it
  replaces a pending one; a pending exception leaves the function after it; otherwise the
  function returns the local.
\<close>

definition make_get_request :: "network \<Rightarrow> bool \<Rightarrow> world \<Rightarrow> (error + response option) \<times> world" where
  "make_get_request net strm w =
     (case try_block net w of
        (raised, resp0, w0) \<Rightarrow>
          (case (case raised of
                   None \<Rightarrow> (None, resp0, w0)
                 | Some e \<Rightarrow> except_clauses e resp0 w0) of
             (pending, resp1, w1) \<Rightarrow>
               (case finally_block strm resp1 w1 of
                  (Some err, w2) \<Rightarrow> (Inl err, w2)
                | (None, w2) \<Rightarrow>
                    (case pending of
                       Some err \<Rightarrow> (Inl err, w2)
                     | None \<Rightarrow> (return_local resp1, w2)))))"

section \<open>Request.\_\_init\_\_ and Request.handle\_get\_request\<close>

record Request =
  status :: "int option"
  attempt :: int
  timeout :: int
  retry_status :: "int list"
  retry_max :: int
  retry_sleep :: real
  headers :: string
  url :: string
  stream :: bool

text \<open>
  The fields as \<^verbatim>\<open>__init__\<close> sets them; the user agent is the one
  \<^verbatim>\<open>get_random_useragent\<close> drew.
\<close>

definition init_fields :: "string \<Rightarrow> string \<Rightarrow> bool \<Rightarrow> Request" where
  "init_fields agent u strm =
     \<lparr>status = Some 0, attempt = 1, timeout = 10, retry_status = [500, 503, 504],
      retry_max = 3, retry_sleep = 5 / 2, headers = agent, url = u, stream = strm\<rparr>"

text \<open>\<^verbatim>\<open>self.status not in self.retry_status\<close>; \<^verbatim>\<open>None\<close> is in no list of integers.\<close>

definition in_retry_status :: "Request \<Rightarrow> bool" where
  "in_retry_status s = (case status s of None \<Rightarrow> False | Some c \<Rightarrow> c \<in> set (retry_status s))"

text \<open>
  The while loop of \<^verbatim>\<open>handle_get_request\<close> with its final \<^verbatim>\<open>return response\<close>. The local
  \<^verbatim>\<open>response\<close> is a parameter, unbound on entry. An exception of the attempt leaves the
  loop and the function.
\<close>

function handle_loop ::
  "network \<Rightarrow> Request \<Rightarrow> response option local \<Rightarrow> world
     \<Rightarrow> (error + response option) \<times> Request \<times> world" where
  "handle_loop net s resp w =
     (if status s \<noteq> Some 200 then
        (case make_get_request net (stream s) w of
           (Inl err, w1) \<Rightarrow> (Inl err, s, w1)
         | (Inr r, w1) \<Rightarrow>
             (if \<not> in_retry_status (s\<lparr>status := map_option status_code r\<rparr>)
              then (return_local (Bound r), s\<lparr>status := map_option status_code r\<rparr>, w1)
              else if attempt s + 1 > retry_max s
              then (return_local (Bound r),
                    s\<lparr>status := map_option status_code r, attempt := attempt s + 1\<rparr>, w1)
              else handle_loop net
                     (s\<lparr>status := map_option status_code r, attempt := attempt s + 1\<rparr>)
                     (Bound r) (w1 @ [Sleep (retry_sleep s)])))
      else (return_local resp, s, w))"
  by pat_completeness auto
termination
  by (relation "measure (\<lambda>(net, s, resp, w). nat (retry_max s - attempt s))") auto

definition handle_get_request ::
  "network \<Rightarrow> Request \<Rightarrow> world \<Rightarrow> (error + response option) \<times> Request \<times> world" where
  "handle_get_request net s w = handle_loop net s Unbound w"

text \<open>
  Constructing a \<^verbatim>\<open>Request\<close> runs the loop: the result is what \<^verbatim>\<open>self.response\<close> is
  assigned (or the exception that leaves the constructor), the fields and the trace.
\<close>

definition new_Request ::
  "network \<Rightarrow> string \<Rightarrow> string \<Rightarrow> bool \<Rightarrow> (error + response option) \<times> Request \<times> world" where
  "new_Request net agent u strm = handle_get_request net (init_fields agent u strm) []"

text \<open>
  An attempt is retryable when the server answered it with a status of \<^verbatim>\<open>retry_status\<close>.
\<close>

definition retryable_outcome :: "get_result \<Rightarrow> bool" where
  "retryable_outcome g =
     (case g of Returned r \<Rightarrow> status_code r \<in> {500, 503, 504} | Raised e \<Rightarrow> False)"

text \<open>
  Networks to run the code on: one that gives every request the same outcome, and one that
  gives the outcomes of a list in turn and refuses the connection afterwards. \<open>reply c\<close> is a
  response with status \<open>c\<close>.
\<close>

definition always :: "get_result \<Rightarrow> network" where
  "always g n = g"

fun in_turn :: "get_result list \<Rightarrow> network" where
  "in_turn [] n = Raised (Exn ConnectionError ''connection refused'')"
| "in_turn (g # gs) 0 = g"
| "in_turn (g # gs) (Suc n) = in_turn gs n"

definition reply :: "int \<Rightarrow> response" where
  "reply c = \<lparr>status_code = c, http_error_text = ''HTTP error''\<rparr>"

section \<open>safe\_print under concurrent callers\<close>

text \<open>
  \<^verbatim>\<open>
  def safe_print(*a, **b):
      print_lock = Lock()
      with print_lock:
          print(*a, **b)
  \<close>
  Each caller runs these statements in order; callers are interleaved by a schedule, one
  step of one caller at a time. The steps of a call with one message: construct a
  \<^verbatim>\<open>Lock\<close> and bind the local \<^verbatim>\<open>print_lock\<close> to it; enter the \<^verbatim>\<open>with\<close> block, which
  takes the lock and waits while it is held; \<^verbatim>\<open>print\<close>, which writes the message and then
  the line end to standard output, as two writes; leave the block, which releases the lock.
  The locks in existence are a list of flags (held or not), a lock being its index.
\<close>

datatype pc = At_Lock | At_enter | At_write_message | At_write_end | At_exit | At_return

record caller =
  pc :: pc
  message :: string
  print_lock :: "nat local"

record console =
  locks :: "bool list"
  stdout :: string

definition safe_print_step :: "caller \<Rightarrow> console \<Rightarrow> caller \<times> console" where
  "safe_print_step c k =
     (case pc c of
        At_Lock \<Rightarrow>
          (c\<lparr>pc := At_enter, print_lock := Bound (length (locks k))\<rparr>,
           k\<lparr>locks := locks k @ [False]\<rparr>)
      | At_enter \<Rightarrow>
          (case print_lock c of
             Unbound \<Rightarrow> (c, k)
           | Bound l \<Rightarrow>
               if l < length (locks k) \<and> locks k ! l then (c, k)
               else (c\<lparr>pc := At_write_message\<rparr>, k\<lparr>locks := (locks k)[l := True]\<rparr>))
      | At_write_message \<Rightarrow>
          (c\<lparr>pc := At_write_end\<rparr>, k\<lparr>stdout := stdout k @ message c\<rparr>)
      | At_write_end \<Rightarrow>
          (c\<lparr>pc := At_exit\<rparr>, k\<lparr>stdout := stdout k @ nl\<rparr>)
      | At_exit \<Rightarrow>
          (case print_lock c of
             Unbound \<Rightarrow> (c, k)
           | Bound l \<Rightarrow> (c\<lparr>pc := At_return\<rparr>, k\<lparr>locks := (locks k)[l := False]\<rparr>))
      | At_return \<Rightarrow> (c, k))"

text \<open>A schedule names the caller that takes the next step.\<close>

fun run :: "nat list \<Rightarrow> caller list \<times> console \<Rightarrow> caller list \<times> console" where
  "run [] cfg = cfg"
| "run (i # sched) (cs, k) =
     (if i < length cs
      then (case safe_print_step (cs ! i) k of (c', k') \<Rightarrow> run sched (cs[i := c'], k'))
      else run sched (cs, k))"

definition call_safe_print :: "string \<Rightarrow> caller" where
  "call_safe_print m = \<lparr>pc = At_Lock, message = m, print_lock = Unbound\<rparr>"

definition concurrent_calls :: "string list \<Rightarrow> caller list \<times> console" where
  "concurrent_calls ms = (map call_safe_print ms, \<lparr>locks = [], stdout = []\<rparr>)"

section \<open>Traces and single steps of the loop\<close>

declare handle_loop.simps [simp del]

lemma attempts_append: "attempts (w @ v) = attempts w + attempts v"
  by (simp add: attempts_def)

lemma sleeps_append: "sleeps (w @ v) = sleeps w @ sleeps v"
  by (induction w rule: sleeps.induct) simp_all

lemma closed_responses_append: "closed_responses (w @ v) = closed_responses w @ closed_responses v"
  by (induction w rule: closed_responses.induct) simp_all

lemma timeline_append: "timeline (w @ v) = timeline w @ timeline v"
  by (induction w rule: timeline.induct) simp_all

lemmas trace_simps = attempts_append sleeps_append closed_responses_append timeline_append

lemma attempts_simps:
  "attempts [] = 0" "attempts (Get n # w) = Suc (attempts w)"
  "attempts (Close r # w) = attempts w" "attempts (Sleep d # w) = attempts w"
  "attempts (Safe_print m # w) = attempts w" "attempts (Print m # w) = attempts w"
  by (simp_all add: attempts_def)

lemmas mgr_defs = make_get_request_def try_block_def requests_get_def except_clauses_def
  finally_block_def return_local_def raise_for_status_def isinstance_def safe_print_def print_def

lemma mgr_Returned:
  assumes "net (attempts w) = Returned r"
  shows "fst (make_get_request net strm w) = Inr (Some r)"
    and "attempts (snd (make_get_request net strm w)) = Suc (attempts w)"
    and "sleeps (snd (make_get_request net strm w)) = sleeps w"
    and "timeline (snd (make_get_request net strm w)) = timeline w @ [Get (attempts w)]"
    and "closed_responses (snd (make_get_request net strm w)) = closed_responses w @ (if strm then [] else [r])"
  using assms by (simp_all add: mgr_defs trace_simps attempts_simps)

lemma mgr_Raised:
  assumes "net (attempts w) = Raised e"
  shows "fst (make_get_request net strm w) =
           (if isinstance e Timeout then Inr None else Inl UnboundLocalError)"
    and "attempts (snd (make_get_request net strm w)) = Suc (attempts w)"
    and "sleeps (snd (make_get_request net strm w)) = sleeps w"
    and "timeline (snd (make_get_request net strm w)) = timeline w @ [Get (attempts w)]"
    and "closed_responses (snd (make_get_request net strm w)) = closed_responses w"
  using assms by (simp_all add: mgr_defs trace_simps attempts_simps)


lemma loop_fault:
  assumes "status s \<noteq> Some 200" and "fst (make_get_request net (stream s) w) = Inl err"
  shows "handle_loop net s loc w = (Inl err, s, snd (make_get_request net (stream s) w))"
  using assms by (subst handle_loop.simps) (simp add: case_prod_beta)

lemma loop_break:
  assumes "status s \<noteq> Some 200" and "fst (make_get_request net (stream s) w) = Inr r"
    and "\<not> in_retry_status (s\<lparr>status := map_option status_code r\<rparr>)"
  shows "handle_loop net s loc w =
           (Inr r, s\<lparr>status := map_option status_code r\<rparr>,
            snd (make_get_request net (stream s) w))"
  using assms by (subst handle_loop.simps) (simp add: case_prod_beta return_local_def)

lemma loop_exhausted:
  assumes "status s \<noteq> Some 200" and "fst (make_get_request net (stream s) w) = Inr r"
    and "in_retry_status (s\<lparr>status := map_option status_code r\<rparr>)"
    and "attempt s + 1 > retry_max s"
  shows "handle_loop net s loc w =
           (Inr r, s\<lparr>status := map_option status_code r, attempt := attempt s + 1\<rparr>,
            snd (make_get_request net (stream s) w))"
  using assms by (subst handle_loop.simps) (simp add: case_prod_beta return_local_def)

lemma loop_retry:
  assumes "status s \<noteq> Some 200" and "fst (make_get_request net (stream s) w) = Inr r"
    and "in_retry_status (s\<lparr>status := map_option status_code r\<rparr>)"
    and "\<not> attempt s + 1 > retry_max s"
  shows "handle_loop net s loc w =
           handle_loop net (s\<lparr>status := map_option status_code r, attempt := attempt s + 1\<rparr>)
             (Bound r) (snd (make_get_request net (stream s) w) @ [Sleep (retry_sleep s)])"
  using assms by (subst handle_loop.simps) (simp add: case_prod_beta)


lemma init_simps:
  "status (init_fields agent u strm) = Some 0" "attempt (init_fields agent u strm) = 1"
  "retry_status (init_fields agent u strm) = [500, 503, 504]"
  "retry_max (init_fields agent u strm) = 3" "retry_sleep (init_fields agent u strm) = 5 / 2"
  "stream (init_fields agent u strm) = strm"
  by (simp_all add: init_fields_def)

lemma mgr_effects:
  "attempts (snd (make_get_request net strm w)) = Suc (attempts w)"
  "sleeps (snd (make_get_request net strm w)) = sleeps w"
  "timeline (snd (make_get_request net strm w)) = timeline w @ [Get (attempts w)]"
  by (cases "net (attempts w)"; simp add: mgr_Returned mgr_Raised)+

lemma loop_step:
  assumes "status s \<noteq> Some 200" and "retry_status s = [500, 503, 504]"
  shows "handle_loop net s loc w =
     (case net (attempts w) of
        Raised e \<Rightarrow>
          if isinstance e Timeout
          then (Inr None, s\<lparr>status := None\<rparr>, snd (make_get_request net (stream s) w))
          else (Inl UnboundLocalError, s, snd (make_get_request net (stream s) w))
      | Returned r \<Rightarrow>
          if status_code r \<in> {500, 503, 504}
          then if attempt s + 1 > retry_max s
               then (Inr (Some r), s\<lparr>status := Some (status_code r), attempt := attempt s + 1\<rparr>,
                     snd (make_get_request net (stream s) w))
               else handle_loop net (s\<lparr>status := Some (status_code r), attempt := attempt s + 1\<rparr>)
                      (Bound (Some r))
                      (snd (make_get_request net (stream s) w) @ [Sleep (retry_sleep s)])
          else (Inr (Some r), s\<lparr>status := Some (status_code r)\<rparr>,
                snd (make_get_request net (stream s) w)))"
proof (cases "net (attempts w)")
  case (Returned r)
  have res: "fst (make_get_request net (stream s) w) = Inr (Some r)"
    using mgr_Returned(1) [where net = net and w = w and strm = "stream s", OF Returned] .
  show ?thesis
    using loop_break [OF assms(1) res, of loc] loop_exhausted [OF assms(1) res, of loc]
      loop_retry [OF assms(1) res, of loc] assms(2) Returned
    by (simp add: in_retry_status_def)
next
  case (Raised e)
  have res: "fst (make_get_request net (stream s) w) =
      (if isinstance e Timeout then Inr None else Inl UnboundLocalError)"
    using mgr_Raised(1) [where net = net and w = w and strm = "stream s", OF Raised] .
  show ?thesis
  proof (cases "isinstance e Timeout")
    case True
    then show ?thesis
      using loop_break [OF assms(1), of net w None loc] res Raised
      by (simp add: in_retry_status_def)
  next
    case False
    then show ?thesis
      using loop_fault [OF assms(1), of net w UnboundLocalError loc] res Raised by simp
  qed
qed

lemma loop_counts:
  assumes "attempt s = 3 - int k" and "retry_status s = [500, 503, 504]" and "retry_max s = 3"
    and "status s \<noteq> Some 200" and "handle_loop net s loc w = (res, s', w')"
  shows "attempt s' =
           attempt s + int (length (filter (\<lambda>i. retryable_outcome (net i)) [attempts w..<attempts w']))
       \<and> attempts w < attempts w' \<and> attempts w' \<le> attempts w + Suc k
       \<and> length (sleeps w') \<le> length (sleeps w) + k"
  using assms
proof (induction k arbitrary: s loc w)
  case 0
  then show ?case
    by (auto simp add: loop_step mgr_effects retryable_outcome_def
        split: get_result.splits if_splits)
next
  case (Suc k)
  let ?w1 = "snd (make_get_request net (stream s) w)"
  show ?case
  proof (cases "retryable_outcome (net (attempts w))")
    case False
    then show ?thesis
      using Suc.prems
      by (auto simp add: loop_step mgr_effects retryable_outcome_def
          split: get_result.splits if_splits)
  next
    case True
    then obtain r where r: "net (attempts w) = Returned r" "status_code r \<in> {500, 503, 504}"
      by (auto simp: retryable_outcome_def split: get_result.splits)
    let ?s2 = "s\<lparr>status := Some (status_code r), attempt := attempt s + 1\<rparr>"
    let ?w2 = "?w1 @ [Sleep (retry_sleep s)]"
    have rec: "handle_loop net ?s2 (Bound (Some r)) ?w2 = (res, s', w')"
      using Suc.prems r by (simp add: loop_step)
    have s2: "attempt ?s2 = 3 - int k" "retry_status ?s2 = [500, 503, 504]" "retry_max ?s2 = 3"
      "status ?s2 \<noteq> Some 200"
      using Suc.prems r by auto
    have w2: "attempts ?w2 = Suc (attempts w)" "length (sleeps ?w2) = Suc (length (sleeps w))"
      by (simp_all add: trace_simps mgr_effects attempts_simps)
    note ih = Suc.IH [OF s2 rec, unfolded w2]
    have lt: "attempts w < attempts w'" using ih by simp
    have "[attempts w..<attempts w'] = attempts w # [Suc (attempts w)..<attempts w']"
      using lt by (simp add: upt_conv_Cons)
    then show ?thesis
      using ih True by simp
  qed
qed

section \<open>One attempt\<close>

text \<open>
  What a session does when its first attempt ends it: the loop takes the break of a status
  outside \<^verbatim>\<open>retry_status\<close>, or the exception of the attempt leaves the constructor.
\<close>

lemma first_attempt_ends:
  assumes "\<not> retryable_outcome (net 0)"
  shows "new_Request net agent u strm =
     (case net 0 of
        Raised e \<Rightarrow>
          if isinstance e Timeout
          then (Inr None, (init_fields agent u strm)\<lparr>status := None\<rparr>,
                snd (make_get_request net strm []))
          else (Inl UnboundLocalError, init_fields agent u strm,
                snd (make_get_request net strm []))
      | Returned r \<Rightarrow>
          (Inr (Some r), (init_fields agent u strm)\<lparr>status := Some (status_code r)\<rparr>,
           snd (make_get_request net strm [])))"
proof -
  note loop_step [of "init_fields agent u strm" net Unbound "[]"]
  then show ?thesis
    using assms
    by (auto simp add: new_Request_def handle_get_request_def init_simps attempts_simps
        retryable_outcome_def split: get_result.splits)
qed

lemma first_attempt_trace:
  "attempts (snd (make_get_request net strm [])) = 1"
  "sleeps (snd (make_get_request net strm [])) = []"
  "timeline (snd (make_get_request net strm [])) = [Get 0]"
  by (simp_all add: mgr_effects attempts_simps)

text \<open>
  C7. If the first attempt is answered with status 200, the session makes exactly one
  physical attempt, sleeps no delay and returns the response of that attempt; the response
  is closed beforehand unless the session streams.
\<close>

theorem first_attempt_200:
  assumes "net 0 = Returned r" and "status_code r = 200"
  shows "new_Request net agent u strm =
           (Inr (Some r), (init_fields agent u strm)\<lparr>status := Some 200\<rparr>,
            Get 0 # (if strm then [] else [Close r]))
       \<and> attempts (snd (snd (new_Request net agent u strm))) = 1
       \<and> sleeps (snd (snd (new_Request net agent u strm))) = []"
proof -
  have "\<not> retryable_outcome (net 0)"
    using assms by (simp add: retryable_outcome_def)
  then have "new_Request net agent u strm =
      (Inr (Some r), (init_fields agent u strm)\<lparr>status := Some 200\<rparr>,
       snd (make_get_request net strm []))"
    using assms by (simp add: first_attempt_ends)
  moreover have "snd (make_get_request net strm []) = Get 0 # (if strm then [] else [Close r])"
    using assms by (simp add: mgr_defs attempts_simps)
  ultimately show ?thesis
    by (simp add: attempts_simps)
qed

theorem first_attempt_200_witness:
  "new_Request (always (Returned (reply 200))) ''agent'' ''https://example.org/pack'' False =
     (Inr (Some (reply 200)),
      (init_fields ''agent'' ''https://example.org/pack'' False)\<lparr>status := Some 200\<rparr>,
      [Get 0, Close (reply 200)])"
  using first_attempt_200 [of "always (Returned (reply 200))" "reply 200"
      "''agent''" "''https://example.org/pack''" False]
  by (simp add: always_def reply_def)

text \<open>
  C5. If the first attempt is answered with a status that is neither 200 nor one of 500, 503
  and 504 (404, 201 and 204 among them), the session makes exactly one physical attempt,
  does not retry, sleeps no delay, leaves the attempt counter at 1 and returns the response
  of that attempt.
\<close>

theorem first_attempt_other_status:
  assumes "net 0 = Returned r" and "status_code r \<notin> {200, 500, 503, 504}"
  shows "fst (new_Request net agent u strm) = Inr (Some r)
       \<and> fst (snd (new_Request net agent u strm)) =
           (init_fields agent u strm)\<lparr>status := Some (status_code r)\<rparr>
       \<and> attempts (snd (snd (new_Request net agent u strm))) = 1
       \<and> timeline (snd (snd (new_Request net agent u strm))) = [Get 0]
       \<and> sleeps (snd (snd (new_Request net agent u strm))) = []"
proof -
  have "\<not> retryable_outcome (net 0)"
    using assms by (simp add: retryable_outcome_def)
  then show ?thesis
    using assms(1) by (simp add: first_attempt_ends first_attempt_trace)
qed

theorem first_attempt_other_status_witness:
  "fst (new_Request (in_turn [Returned (reply 404), Returned (reply 200)]) ''agent''
          ''https://example.org/pack'' False) = Inr (Some (reply 404))
   \<and> attempts (snd (snd (new_Request (in_turn [Returned (reply 404), Returned (reply 200)])
          ''agent'' ''https://example.org/pack'' False))) = 1
   \<and> sleeps (snd (snd (new_Request (in_turn [Returned (reply 404), Returned (reply 200)])
          ''agent'' ''https://example.org/pack'' False))) = []
   \<and> fst (new_Request (always (Returned (reply 204))) ''agent''
          ''https://example.org/pack'' True) = Inr (Some (reply 204))"
  using first_attempt_other_status [of "in_turn [Returned (reply 404), Returned (reply 200)]"
      "reply 404" "''agent''" "''https://example.org/pack''" False]
    first_attempt_other_status [of "always (Returned (reply 204))"
      "reply 204" "''agent''" "''https://example.org/pack''" True]
  by (simp add: always_def reply_def)

section \<open>Retries\<close>

text \<open>
  A retryable first attempt below the bound: the counter goes up by one, the delay is slept
  and the loop runs again.
\<close>

lemma loop_retry_step:
  assumes "net (attempts w) = Returned r" and "status_code r \<in> {500, 503, 504}"
    and "status s \<noteq> Some 200" and "retry_status s = [500, 503, 504]"
    and "attempt s + 1 \<le> retry_max s"
  shows "handle_loop net s loc w =
           handle_loop net (s\<lparr>status := Some (status_code r), attempt := attempt s + 1\<rparr>)
             (Bound (Some r)) (snd (make_get_request net (stream s) w) @ [Sleep (retry_sleep s)])"
proof -
  note loop_step [OF assms(3,4), of net loc w]
  then show ?thesis
    using assms(1,2,5) by simp
qed

lemma loop_last_step:
  assumes "net (attempts w) = Returned r" and "status_code r \<in> {500, 503, 504}"
    and "status s \<noteq> Some 200" and "retry_status s = [500, 503, 504]"
    and "attempt s + 1 > retry_max s"
  shows "handle_loop net s loc w =
           (Inr (Some r), s\<lparr>status := Some (status_code r), attempt := attempt s + 1\<rparr>,
            snd (make_get_request net (stream s) w))"
proof -
  note loop_step [OF assms(3,4), of net loc w]
  then show ?thesis
    using assms(1,2,5) by simp
qed

lemma loop_break_step:
  assumes "net (attempts w) = Returned r" and "status_code r \<notin> {500, 503, 504}"
    and "status s \<noteq> Some 200" and "retry_status s = [500, 503, 504]"
  shows "handle_loop net s loc w =
           (Inr (Some r), s\<lparr>status := Some (status_code r)\<rparr>,
            snd (make_get_request net (stream s) w))"
proof -
  note loop_step [OF assms(3,4), of net loc w]
  then show ?thesis
    using assms(1,2) by simp
qed

text \<open>
  C6. If the first attempt is answered with status 503 and the second with status 200, the
  session makes exactly two physical attempts, sleeps the delay of 2.5 seconds once, between
  them, and returns the response of the second attempt.
\<close>

theorem retry_503_then_200:
  assumes "net 0 = Returned r1" and "status_code r1 = 503"
    and "net 1 = Returned r2" and "status_code r2 = 200"
  shows "fst (new_Request net agent u strm) = Inr (Some r2)
       \<and> attempts (snd (snd (new_Request net agent u strm))) = 2
       \<and> timeline (snd (snd (new_Request net agent u strm))) = [Get 0, Sleep (5 / 2), Get 1]
       \<and> sleeps (snd (snd (new_Request net agent u strm))) = [5 / 2]"
proof -
  define s0 where "s0 = init_fields agent u strm"
  define s1 where "s1 = s0\<lparr>status := Some 503, attempt := 2\<rparr>"
  define w1 where "w1 = snd (make_get_request net strm []) @ [Sleep (5 / 2)]"
  have first: "handle_loop net s0 Unbound [] = handle_loop net s1 (Bound (Some r1)) w1"
    using loop_retry_step [of net "[]" r1 s0 Unbound] assms(1,2)
    by (simp add: s0_def s1_def w1_def init_simps attempts_simps)
  have w1: "attempts w1 = 1" "timeline w1 = [Get 0, Sleep (5 / 2)]" "sleeps w1 = [5 / 2]"
    by (simp_all add: w1_def trace_simps mgr_effects attempts_simps)
  have second: "handle_loop net s1 (Bound (Some r1)) w1 =
      (Inr (Some r2), s1\<lparr>status := Some 200\<rparr>, snd (make_get_request net strm w1))"
    using loop_break_step [of net w1 r2 s1 "Bound (Some r1)"] assms(3,4) w1(1)
    by (simp add: s0_def s1_def init_simps)
  have "new_Request net agent u strm =
      (Inr (Some r2), s1\<lparr>status := Some 200\<rparr>, snd (make_get_request net strm w1))"
    using first second by (simp add: new_Request_def handle_get_request_def s0_def)
  then show ?thesis
    using w1 by (simp add: mgr_effects)
qed

theorem retry_503_then_200_witness:
  "new_Request (in_turn [Returned (reply 503), Returned (reply 200)]) ''agent''
     ''https://example.org/pack'' False =
   (Inr (Some (reply 200)),
    (init_fields ''agent'' ''https://example.org/pack'' False)\<lparr>status := Some 200, attempt := 2\<rparr>,
    [Get 0, Safe_print ''Error: The requested resource could not be reached'',
     Print ''HTTP error'', Close (reply 503), Sleep (5 / 2), Get 1, Close (reply 200)])
   \<and> timeline (snd (snd (new_Request (in_turn [Returned (reply 503), Returned (reply 200)])
        ''agent'' ''https://example.org/pack'' False))) = [Get 0, Sleep (5 / 2), Get 1]"
proof -
  define net where "net = in_turn [Returned (reply 503), Returned (reply 200)]"
  define s0 where "s0 = init_fields ''agent'' ''https://example.org/pack'' False"
  define w1 where "w1 = [Get 0, Safe_print ''Error: The requested resource could not be reached'',
     Print ''HTTP error'', Close (reply 503), Sleep (5 / 2)]"
  have net: "net 0 = Returned (reply 503)" "net 1 = Returned (reply 200)"
    "net (Suc 0) = Returned (reply 200)"
    by (simp_all add: net_def)
  have first: "snd (make_get_request net False []) @ [Sleep (5 / 2)] = w1"
    using net(1) by (simp add: mgr_defs attempts_simps reply_def w1_def)
  have "handle_loop net s0 Unbound [] =
      handle_loop net (s0\<lparr>status := Some 503, attempt := 2\<rparr>) (Bound (Some (reply 503))) w1"
    using loop_retry_step [of net "[]" "reply 503" s0 Unbound] net(1) first
    by (simp add: s0_def init_simps attempts_simps reply_def)
  moreover have "handle_loop net (s0\<lparr>status := Some 503, attempt := 2\<rparr>)
        (Bound (Some (reply 503))) w1 =
      (Inr (Some (reply 200)), s0\<lparr>status := Some 200, attempt := 2\<rparr>,
       w1 @ [Get 1, Close (reply 200)])"
    using loop_break_step [of net w1 "reply 200" "s0\<lparr>status := Some 503, attempt := 2\<rparr>"
        "Bound (Some (reply 503))"] net(3)
    by (simp add: s0_def init_simps w1_def attempts_simps reply_def mgr_defs)
  ultimately have run: "new_Request net ''agent'' ''https://example.org/pack'' False =
      (Inr (Some (reply 200)), s0\<lparr>status := Some 200, attempt := 2\<rparr>,
       w1 @ [Get 1, Close (reply 200)])"
    by (simp add: new_Request_def handle_get_request_def s0_def)
  show ?thesis
    using run
      retry_503_then_200 [of net "reply 503" "reply 200" "''agent''" "''https://example.org/pack''" False]
      net(1,2)
    by (simp add: net_def s0_def w1_def reply_def)
qed

text \<open>
  Three retryable answers in a row: the third attempt raises the counter to 4, above
  \<^verbatim>\<open>retry_max\<close>, and the loop breaks before any fourth request.
\<close>

lemma three_retryable_attempts:
  assumes "retryable_outcome (net 0)" and "retryable_outcome (net 1)"
    and "retryable_outcome (net 2)"
  shows "\<exists>r. net 2 = Returned r \<and> fst (new_Request net agent u strm) = Inr (Some r)"
    and "attempt (fst (snd (new_Request net agent u strm))) = 4"
    and "attempts (snd (snd (new_Request net agent u strm))) = 3"
    and "timeline (snd (snd (new_Request net agent u strm))) =
           [Get 0, Sleep (5 / 2), Get 1, Sleep (5 / 2), Get 2]"
    and "sleeps (snd (snd (new_Request net agent u strm))) = [5 / 2, 5 / 2]"
proof -
  obtain r0 where r0: "net 0 = Returned r0" "status_code r0 \<in> {500, 503, 504}"
    using assms(1) by (auto simp: retryable_outcome_def split: get_result.splits)
  obtain r1 where r1: "net 1 = Returned r1" "status_code r1 \<in> {500, 503, 504}"
    using assms(2) by (auto simp: retryable_outcome_def split: get_result.splits)
  obtain r2 where r2: "net 2 = Returned r2" "status_code r2 \<in> {500, 503, 504}"
    using assms(3) by (auto simp: retryable_outcome_def split: get_result.splits)
  define s0 where "s0 = init_fields agent u strm"
  define s1 where "s1 = s0\<lparr>status := Some (status_code r0), attempt := 2\<rparr>"
  define s2 where "s2 = s0\<lparr>status := Some (status_code r1), attempt := 3\<rparr>"
  define s3 where "s3 = s0\<lparr>status := Some (status_code r2), attempt := 4\<rparr>"
  define w1 where "w1 = snd (make_get_request net strm []) @ [Sleep (5 / 2)]"
  define w2 where "w2 = snd (make_get_request net strm w1) @ [Sleep (5 / 2)]"
  define w3 where "w3 = snd (make_get_request net strm w2)"
  have w1: "attempts w1 = 1" "timeline w1 = [Get 0, Sleep (5 / 2)]" "sleeps w1 = [5 / 2]"
    by (simp_all add: w1_def trace_simps mgr_effects attempts_simps)
  have w2: "attempts w2 = 2" "timeline w2 = [Get 0, Sleep (5 / 2), Get 1, Sleep (5 / 2)]"
    "sleeps w2 = [5 / 2, 5 / 2]"
    using w1 by (simp_all add: w2_def trace_simps mgr_effects attempts_simps)
  have w3: "attempts w3 = 3"
    "timeline w3 = [Get 0, Sleep (5 / 2), Get 1, Sleep (5 / 2), Get 2]"
    "sleeps w3 = [5 / 2, 5 / 2]"
    using w2 by (simp_all add: w3_def mgr_effects)
  have not200: "status s1 \<noteq> Some 200" "status s2 \<noteq> Some 200"
    using r0(2) r1(2) by (auto simp: s1_def s2_def)
  have first: "handle_loop net s0 Unbound [] = handle_loop net s1 (Bound (Some r0)) w1"
    using loop_retry_step [of net "[]" r0 s0 Unbound] r0
    by (simp add: s0_def s1_def w1_def init_simps attempts_simps)
  have second: "handle_loop net s1 (Bound (Some r0)) w1 = handle_loop net s2 (Bound (Some r1)) w2"
    using loop_retry_step [of net w1 r1 s1 "Bound (Some r0)"] r1 w1(1) not200(1)
    by (simp add: s0_def s1_def s2_def w2_def init_simps)
  have third: "handle_loop net s2 (Bound (Some r1)) w2 = (Inr (Some r2), s3, w3)"
    using loop_last_step [of net w2 r2 s2 "Bound (Some r1)"] r2 w2(1) not200(2)
    by (simp add: s0_def s2_def s3_def w3_def init_simps)
  have run: "new_Request net agent u strm = (Inr (Some r2), s3, w3)"
    using first second third by (simp add: new_Request_def handle_get_request_def s0_def)
  show "\<exists>r. net 2 = Returned r \<and> fst (new_Request net agent u strm) = Inr (Some r)"
    using run r2(1) by simp
  show "attempt (fst (snd (new_Request net agent u strm))) = 4"
    using run by (simp add: s3_def)
  show "attempts (snd (snd (new_Request net agent u strm))) = 3"
    using run w3(1) by simp
  show "timeline (snd (snd (new_Request net agent u strm))) =
      [Get 0, Sleep (5 / 2), Get 1, Sleep (5 / 2), Get 2]"
    using run w3(2) by simp
  show "sleeps (snd (snd (new_Request net agent u strm))) = [5 / 2, 5 / 2]"
    using run w3(3) by simp
qed

lemma always_retryable: "retryable_outcome (always (Returned (reply 503)) n)"
  by (simp add: always_def reply_def retryable_outcome_def)

text \<open>
  C1, as the code has it. If every physical attempt is answered with a status of 500, 503
  or 504, the session makes exactly three physical attempts (the first and two retries),
  sleeps the delay of 2.5 seconds between consecutive attempts, twice in all, and returns
  the response of the third attempt.
\<close>

theorem every_attempt_retryable:
  assumes "\<forall>n. retryable_outcome (net n)"
  shows "attempts (snd (snd (new_Request net agent u strm))) = 3
       \<and> timeline (snd (snd (new_Request net agent u strm))) =
           [Get 0, Sleep (5 / 2), Get 1, Sleep (5 / 2), Get 2]
       \<and> sleeps (snd (snd (new_Request net agent u strm))) = [5 / 2, 5 / 2]
       \<and> (\<exists>r. net 2 = Returned r \<and> fst (new_Request net agent u strm) = Inr (Some r))"
  using assms three_retryable_attempts [of net agent u strm] by simp

theorem every_attempt_retryable_witness:
  "attempts (snd (snd (new_Request (always (Returned (reply 503))) ''agent''
      ''https://example.org/pack'' False))) = 3
   \<and> timeline (snd (snd (new_Request (always (Returned (reply 503))) ''agent''
      ''https://example.org/pack'' False))) = [Get 0, Sleep (5 / 2), Get 1, Sleep (5 / 2), Get 2]
   \<and> fst (new_Request (always (Returned (reply 503))) ''agent''
      ''https://example.org/pack'' False) = Inr (Some (reply 503))"
  using every_attempt_retryable [of "always (Returned (reply 503))" "''agent''"
      "''https://example.org/pack''" False]
    always_retryable
  by (simp add: always_def)

text \<open>
  C1, as the specification has it, fails: on a server that answers every request with 503
  the session makes three physical attempts, not four, and sleeps two delays, not three.
\<close>

theorem four_attempts_counterexample:
  "attempts (snd (snd (new_Request (always (Returned (reply 503))) ''agent''
      ''https://example.org/pack'' False))) \<noteq> 4
   \<and> attempts (snd (snd (new_Request (always (Returned (reply 503))) ''agent''
      ''https://example.org/pack'' False))) = 3
   \<and> length (sleeps (snd (snd (new_Request (always (Returned (reply 503))) ''agent''
      ''https://example.org/pack'' False)))) = 2"
  using three_retryable_attempts(3,5) [of "always (Returned (reply 503))" "''agent''"
      "''https://example.org/pack''" False]
    always_retryable
  by simp

text \<open>
  C10. Whatever the outcomes of the attempts, the attempt counter starts at 1, ends at 1 plus
  the number of physical attempts that were answered with a status of 500, 503 or 504, and
  ends at 4 at most; the session makes at least one and at most three physical attempts and
  sleeps at most two delays.
\<close>

theorem attempt_counter_bounds:
  "attempt (init_fields agent u strm) = 1
   \<and> attempt (fst (snd (new_Request net agent u strm))) =
       1 + int (length (filter (\<lambda>i. retryable_outcome (net i))
                  [0..<attempts (snd (snd (new_Request net agent u strm)))]))
   \<and> attempt (fst (snd (new_Request net agent u strm))) \<le> 4
   \<and> 1 \<le> attempts (snd (snd (new_Request net agent u strm)))
   \<and> attempts (snd (snd (new_Request net agent u strm))) \<le> 3
   \<and> length (sleeps (snd (snd (new_Request net agent u strm)))) \<le> 2"
proof -
  obtain res s' w' where run: "new_Request net agent u strm = (res, s', w')"
    by (cases "new_Request net agent u strm")
  then have loop: "handle_loop net (init_fields agent u strm) Unbound [] = (res, s', w')"
    by (simp add: new_Request_def handle_get_request_def)
  have counts: "attempt s' =
      1 + int (length (filter (\<lambda>i. retryable_outcome (net i)) [0..<attempts w']))"
      "0 < attempts w'" "attempts w' \<le> 3" "length (sleeps w') \<le> 2"
    using loop_counts [of "init_fields agent u strm" 2 net Unbound "[]" res s' w'] loop
    by (simp_all add: init_simps attempts_simps)
  have "length (filter (\<lambda>i. retryable_outcome (net i)) [0..<attempts w']) \<le> attempts w'"
    using length_filter_le [of "\<lambda>i. retryable_outcome (net i)" "[0..<attempts w']"] by simp
  then have "attempt s' \<le> 4"
    using counts(1,3) by linarith
  then show ?thesis
    using run counts by (simp add: init_simps)
qed

section \<open>Closing responses\<close>

lemma mgr_stream_closes_nothing:
  "closed_responses (snd (make_get_request net True w)) = closed_responses w"
  by (cases "net (attempts w)") (simp_all add: mgr_Returned mgr_Raised)

lemma loop_stream_closes_nothing:
  assumes "attempt s = 3 - int k" and "retry_status s = [500, 503, 504]" and "retry_max s = 3"
    and "status s \<noteq> Some 200" and "stream s"
    and "handle_loop net s loc w = (res, s', w')"
  shows "closed_responses w' = closed_responses w"
  using assms
proof (induction k arbitrary: s loc w)
  case 0
  then show ?case
    by (auto simp add: loop_step mgr_stream_closes_nothing split: get_result.splits if_splits)
next
  case (Suc k)
  show ?case
  proof (cases "retryable_outcome (net (attempts w))")
    case False
    then show ?thesis
      using Suc.prems
      by (auto simp add: loop_step mgr_stream_closes_nothing retryable_outcome_def
          split: get_result.splits if_splits)
  next
    case True
    then obtain r where r: "net (attempts w) = Returned r" "status_code r \<in> {500, 503, 504}"
      by (auto simp: retryable_outcome_def split: get_result.splits)
    let ?s2 = "s\<lparr>status := Some (status_code r), attempt := attempt s + 1\<rparr>"
    let ?w2 = "snd (make_get_request net (stream s) w) @ [Sleep (retry_sleep s)]"
    have rec: "handle_loop net ?s2 (Bound (Some r)) ?w2 = (res, s', w')"
      using Suc.prems r by (simp add: loop_step)
    have s2: "attempt ?s2 = 3 - int k" "retry_status ?s2 = [500, 503, 504]" "retry_max ?s2 = 3"
      "status ?s2 \<noteq> Some 200" "stream ?s2"
      using Suc.prems r by auto
    have "closed_responses ?w2 = closed_responses w"
      using Suc.prems(5) by (simp add: trace_simps mgr_stream_closes_nothing)
    then show ?thesis
      using Suc.IH [OF s2 rec] by simp
  qed
qed

text \<open>
  C8. In an attempt of a session that does not stream, a response object the attempt
  obtained, whatever its status, is closed before the attempt returns it: closing it is the
  last thing the attempt does. In an attempt of a streaming session the response obtained is
  returned and nothing is closed, and a whole streaming session closes nothing.
\<close>

theorem close_unless_streaming:
  assumes "net (attempts w) = Returned r"
  shows "fst (make_get_request net False w) = Inr (Some r)
       \<and> closed_responses (snd (make_get_request net False w)) = closed_responses w @ [r]
       \<and> last (snd (make_get_request net False w)) = Close r
       \<and> fst (make_get_request net True w) = Inr (Some r)
       \<and> closed_responses (snd (make_get_request net True w)) = closed_responses w
       \<and> closed_responses (snd (snd (new_Request net agent u True))) = []"
proof -
  obtain res s' w' where run: "new_Request net agent u True = (res, s', w')"
    by (cases "new_Request net agent u True")
  then have "handle_loop net (init_fields agent u True) Unbound [] = (res, s', w')"
    by (simp add: new_Request_def handle_get_request_def)
  then have "closed_responses w' = []"
    using loop_stream_closes_nothing [of "init_fields agent u True" 2 net Unbound "[]" res s' w']
    by (simp add: init_simps)
  moreover have "last (snd (make_get_request net False w)) = Close r"
    using assms by (simp add: mgr_defs)
  ultimately show ?thesis
    using assms run by (simp add: mgr_Returned)
qed

theorem close_unless_streaming_witness:
  "make_get_request (always (Returned (reply 404))) False [] =
     (Inr (Some (reply 404)),
      [Get 0, Safe_print ''Error: The requested resource could not be reached'',
       Print ''HTTP error'', Close (reply 404)])
   \<and> closed_responses (snd (make_get_request (always (Returned (reply 404))) False [])) =
       [reply 404]
   \<and> make_get_request (always (Returned (reply 200))) True [] =
       (Inr (Some (reply 200)), [Get 0])
   \<and> closed_responses (snd (make_get_request (always (Returned (reply 200))) True [])) = []"
  using close_unless_streaming [of "always (Returned (reply 404))" "[]" "reply 404"]
    close_unless_streaming [of "always (Returned (reply 200))" "[]" "reply 200"]
  by (simp add: always_def reply_def mgr_defs attempts_simps)

section \<open>Failures below HTTP\<close>

text \<open>
  C9. When \<^verbatim>\<open>requests.get\<close> raises for too many redirects, for a TLS failure or for
  another transport error that is neither a timeout nor a connection or HTTP error, the try
  block leaves the local \<^verbatim>\<open>response\<close> unbound and no except clause binds it, so the
  finally block, and the return after it, raise \<^verbatim>\<open>UnboundLocalError\<close> and the attempt
  yields no absent response. An except clause binds the unbound local to \<^verbatim>\<open>None\<close> exactly
  when the exception is a timeout.
\<close>

theorem unbound_response_faults:
  assumes "net (attempts w) = Raised e"
    and "cls e \<in> {TooManyRedirects, SSLError, RequestException}"
  shows "fst (snd (try_block net w)) = Unbound
       \<and> fst (snd (except_clauses e Unbound v)) = Unbound
       \<and> fst (finally_block strm Unbound v) = Some UnboundLocalError
       \<and> return_local Unbound = Inl UnboundLocalError
       \<and> fst (make_get_request net strm w) = Inl UnboundLocalError
       \<and> (fst (snd (except_clauses e' Unbound v)) = Bound None) = isinstance e' Timeout"
proof -
  have no_timeout: "\<not> isinstance e Timeout"
    using assms(2) by (auto simp: isinstance_def)
  have "fst (snd (try_block net w)) = Unbound"
    using assms(1) by (simp add: try_block_def requests_get_def)
  moreover have "fst (snd (except_clauses e Unbound v)) = Unbound"
    using no_timeout by (simp add: except_clauses_def)
  moreover have "fst (make_get_request net strm w) = Inl UnboundLocalError"
    using mgr_Raised(1) [where net = net and w = w and strm = strm, OF assms(1)] no_timeout
    by simp
  moreover have "(fst (snd (except_clauses e' Unbound v)) = Bound None) = isinstance e' Timeout"
    by (simp add: except_clauses_def)
  ultimately show ?thesis
    by (simp add: finally_block_def return_local_def)
qed

theorem unbound_response_faults_witness:
  "make_get_request (always (Raised (Exn TooManyRedirects ''Exceeded 30 redirects''))) False [] =
     (Inl UnboundLocalError,
      [Get 0, Safe_print (''Error: The request exceeded the number of maximum redirections''
                          @ nl @ ''Exceeded 30 redirects'')])
   \<and> fst (make_get_request (always (Raised (Exn SSLError ''certificate verify failed''))) False [])
       = Inl UnboundLocalError
   \<and> fst (make_get_request (always (Raised (Exn RequestException ''invalid URL''))) True [])
       = Inl UnboundLocalError"
  using unbound_response_faults [of "always (Raised (Exn TooManyRedirects ''Exceeded 30 redirects''))"
      "[]" "Exn TooManyRedirects ''Exceeded 30 redirects''" "[]" False]
    unbound_response_faults [of "always (Raised (Exn SSLError ''certificate verify failed''))"
      "[]" "Exn SSLError ''certificate verify failed''" "[]" False]
    unbound_response_faults [of "always (Raised (Exn RequestException ''invalid URL''))"
      "[]" "Exn RequestException ''invalid URL''" "[]" True]
  by (simp add: always_def mgr_defs attempts_simps)

text \<open>
  C3 fails on the code. A connection error leaves \<^verbatim>\<open>response\<close> unbound; the clause that
  catches it reads \<^verbatim>\<open>response.status_code\<close>, and the \<^verbatim>\<open>UnboundLocalError\<close> leaves
  \<^verbatim>\<open>make_get_request\<close>, \<^verbatim>\<open>handle_get_request\<close> and the constructor: the session
  returns no value.
\<close>

theorem connection_error_escapes:
  "new_Request (always (Raised (Exn ConnectionError ''connection refused''))) ''agent''
     ''https://example.org/pack'' False =
   (Inl UnboundLocalError, init_fields ''agent'' ''https://example.org/pack'' False, [Get 0])"
  using first_attempt_ends [of "always (Raised (Exn ConnectionError ''connection refused''))"
      "''agent''" "''https://example.org/pack''" False]
  by (simp add: always_def retryable_outcome_def mgr_defs attempts_simps)

text \<open>
  C4 holds for a timeout and fails on the code for a TLS failure. After a timeout the
  session returns \<^verbatim>\<open>None\<close> with the status \<^verbatim>\<open>None\<close>, after one request and no sleep.
  After a TLS failure there is one request and no sleep as well, but the
  \<^verbatim>\<open>UnboundLocalError\<close> leaves the constructor and the status is still the initial 0.
\<close>

theorem timeout_returns_tls_failure_faults:
  "new_Request (always (Raised (Exn ReadTimeout ''read timed out''))) ''agent''
     ''https://example.org/pack'' False =
   (Inr None, (init_fields ''agent'' ''https://example.org/pack'' False)\<lparr>status := None\<rparr>,
    [Get 0, Safe_print (''Timeout: The request timed out while waiting for the server to respond''
                        @ nl @ ''read timed out'')])
   \<and> new_Request (always (Raised (Exn SSLError ''certificate verify failed''))) ''agent''
     ''https://example.org/pack'' False =
   (Inl UnboundLocalError, init_fields ''agent'' ''https://example.org/pack'' False, [Get 0])
   \<and> status (init_fields ''agent'' ''https://example.org/pack'' False) = Some 0"
  using first_attempt_ends [of "always (Raised (Exn ReadTimeout ''read timed out''))"
      "''agent''" "''https://example.org/pack''" False]
    first_attempt_ends [of "always (Raised (Exn SSLError ''certificate verify failed''))"
      "''agent''" "''https://example.org/pack''" False]
  by (simp add: always_def retryable_outcome_def mgr_defs attempts_simps init_simps)

section \<open>The lock of safe\_print\<close>

text \<open>
  C2 fails on the code. Every call of \<^verbatim>\<open>safe_print\<close> constructs a lock of its own, so no
  caller ever waits for another. Two callers with the messages \<^verbatim>\<open>a\<close> and \<^verbatim>\<open>b\<close>, taking
  their steps alternately: after three steps each, two locks exist, both are held and both
  callers are inside \<^verbatim>\<open>print\<close>; at the end standard output holds the two messages on one
  line, followed by the two line ends.
\<close>

theorem safe_print_lock_per_call:
  "run [0, 1, 0, 1, 0, 1] (concurrent_calls [''a'', ''b'']) =
     ([\<lparr>pc = At_write_end, message = ''a'', print_lock = Bound 0\<rparr>,
       \<lparr>pc = At_write_end, message = ''b'', print_lock = Bound 1\<rparr>],
      \<lparr>locks = [True, True], stdout = ''ab''\<rparr>)
   \<and> run [0, 1, 0, 1, 0, 1, 0, 1, 0, 1] (concurrent_calls [''a'', ''b'']) =
     ([\<lparr>pc = At_return, message = ''a'', print_lock = Bound 0\<rparr>,
       \<lparr>pc = At_return, message = ''b'', print_lock = Bound 1\<rparr>],
      \<lparr>locks = [False, False], stdout = ''ab'' @ nl @ nl\<rparr>)"
  by (simp add: concurrent_calls_def call_safe_print_def safe_print_step_def)

end
